theory Spec2Isabelle
  imports Complex_Main
begin

section \<open>Time, durations and rows of the two tables\<close>

text \<open>
  An instant (Go's \<open>time.Time\<close>, as written by \<open>time.Now().UTC()\<close> and read back from
  a DATETIME column) is an integer count of nanoseconds; \<open>Before\<close>, \<open>After\<close> and \<open>Sub\<close>
  compare and subtract instants. A \<open>time.Duration\<close> is an integer count of nanoseconds,
  and \<open>Duration.Seconds\<close> is the exact quotient by \<open>10^9\<close> (the source holds it in a
  float64; spans beyond the saturation point of \<open>Sub\<close> and the rounding of the float are
  outside this model). The conversion \<open>int64(x)\<close> truncates toward zero.
\<close>

type_synonym Time = int
type_synonym Duration = int

definition Before :: "Time \<Rightarrow> Time \<Rightarrow> bool" where
  "Before t u \<longleftrightarrow> t < u"


definition Sub :: "Time \<Rightarrow> Time \<Rightarrow> Duration" where
  "Sub t u = t - u"

definition Second :: Duration where
  "Second = 1000000000"

definition Seconds :: "Duration \<Rightarrow> rat" where
  "Seconds d = of_int d / of_int Second"

definition int64 :: "rat \<Rightarrow> int" where
  "int64 x = (if x < 0 then - \<lfloor>- x\<rfloor> else \<lfloor>x\<rfloor>)"



record PollUpdate =
  pu_DeviceID :: string
  pu_AppID :: string
  pu_AppName :: string
  pu_State :: string
  pu_Timestamp :: Time

record CurrentSession =
  cs_DeviceID :: string
  cs_AppID :: string
  cs_AppName :: string
  cs_StartTime :: Time
  cs_LastSeenTime :: Time
  cs_State :: string

record Session =
  se_ID :: int
  se_DeviceID :: string
  se_AppID :: string
  se_AppName :: string
  se_StartTime :: Time
  se_EndTime :: Time
  se_DurationSecs :: int
  se_EndReason :: string


section \<open>The database: two tables, statements, transactions\<close>

text \<open>
  The store is the content of the two tables created by \<open>runMigrations\<close>, in row order,
  together with the AUTOINCREMENT counter of \<open>sessions.id\<close>. The table
  \<open>current_sessions\<close> is a list of rows so that the primary key on \<open>device_id\<close> is a
  check made by INSERT, not a property of the type.

  Every call into the database engine may fail. The environment decides it: a value of
  type \<open>faults\<close> says, for the n-th call of one transaction (call 0 is \<open>BeginTx\<close>),
  whether it fails and, for a SELECT, at which of the three places the source tests.
\<close>

record db =
  sessions :: "Session list"
  current_sessions :: "CurrentSession list"
  sqlite_sequence :: int

datatype fault = AtQuery | AtScan | AtIterate

type_synonym faults = "nat \<Rightarrow> fault option"

datatype cause = EngineFault | UniqueConstraint | RequestError | ReadError | EOF | XMLSyntaxError
  | FileError | JSONError

text \<open>An error value is the format string given to \<open>fmt.Errorf\<close>, with the wrapped
  cause (\<open>%w\<close>) or the index (\<open>%d\<close>) it is applied to.\<close>

datatype error = Errorf string "cause option" | Errorf_d string nat

record tx =
  tx_db :: db
  tx_n :: nat

definition advance :: "tx \<Rightarrow> tx" where
  "advance t = t\<lparr>tx_n := Suc (tx_n t)\<rparr>"

definition no_faults :: faults where
  "no_faults = (\<lambda>n. None)"

text \<open>\<open>SELECT ... FROM current_sessions WHERE device_id = ?\<close> through \<open>QueryRowContext\<close>
  and \<open>Scan\<close>: the first matching row, or none (\<open>sql.ErrNoRows\<close>).\<close>

definition select_current_where_device ::
  "faults \<Rightarrow> tx \<Rightarrow> string \<Rightarrow> cause + (CurrentSession option \<times> tx)" where
  "select_current_where_device f t dev =
     (if f (tx_n t) \<noteq> None then Inl EngineFault
      else Inr (find (\<lambda>r. cs_DeviceID r = dev) (current_sessions (tx_db t)), advance t))"

text \<open>\<open>INSERT INTO current_sessions\<close>: refused when a row with the same primary key
  exists.\<close>

definition insert_current_session :: "faults \<Rightarrow> tx \<Rightarrow> CurrentSession \<Rightarrow> cause + tx" where
  "insert_current_session f t row =
     (if f (tx_n t) \<noteq> None then Inl EngineFault
      else if cs_DeviceID row \<in> set (map cs_DeviceID (current_sessions (tx_db t)))
        then Inl UniqueConstraint
      else Inr (advance (t\<lparr>tx_db := (tx_db t)
                  \<lparr>current_sessions := current_sessions (tx_db t) @ [row]\<rparr>\<rparr>)))"

text \<open>\<open>UPDATE current_sessions SET last_seen_time = ? WHERE device_id = ?\<close>.\<close>

definition update_last_seen_time :: "faults \<Rightarrow> tx \<Rightarrow> Time \<Rightarrow> string \<Rightarrow> cause + tx" where
  "update_last_seen_time f t ts dev =
     (if f (tx_n t) \<noteq> None then Inl EngineFault
      else Inr (advance (t\<lparr>tx_db := (tx_db t)
                  \<lparr>current_sessions :=
                     map (\<lambda>r. if cs_DeviceID r = dev then r\<lparr>cs_LastSeenTime := ts\<rparr> else r)
                       (current_sessions (tx_db t))\<rparr>\<rparr>)))"

text \<open>\<open>DELETE FROM current_sessions WHERE device_id = ?\<close> and the unconditional
  \<open>DELETE FROM current_sessions\<close>.\<close>

definition delete_current_where_device :: "faults \<Rightarrow> tx \<Rightarrow> string \<Rightarrow> cause + tx" where
  "delete_current_where_device f t dev =
     (if f (tx_n t) \<noteq> None then Inl EngineFault
      else Inr (advance (t\<lparr>tx_db := (tx_db t)
                  \<lparr>current_sessions :=
                     filter (\<lambda>r. cs_DeviceID r \<noteq> dev) (current_sessions (tx_db t))\<rparr>\<rparr>)))"


text \<open>\<open>INSERT INTO sessions (device_id, app_id, app_name, start_time, end_time,
  duration_seconds, end_reason)\<close>: the id is the next value of the counter.\<close>

definition insert_session ::
  "faults \<Rightarrow> tx \<Rightarrow> string \<Rightarrow> string \<Rightarrow> string \<Rightarrow> Time \<Rightarrow> Time \<Rightarrow> int \<Rightarrow> string \<Rightarrow> cause + tx" where
  "insert_session f t dev app name start end dur reason =
     (if f (tx_n t) \<noteq> None then Inl EngineFault
      else Inr (advance (t\<lparr>tx_db := (tx_db t)
                  \<lparr>sessions := sessions (tx_db t) @
                     [\<lparr>se_ID = sqlite_sequence (tx_db t) + 1, se_DeviceID = dev, se_AppID = app,
                       se_AppName = name, se_StartTime = start, se_EndTime = end,
                       se_DurationSecs = dur, se_EndReason = reason\<rparr>],
                   sqlite_sequence := sqlite_sequence (tx_db t) + 1\<rparr>\<rparr>)))"

text \<open>\<open>DB.WithTx\<close>: begin, run the body, roll back on its error, commit otherwise. The
  result is the returned error (\<open>None\<close> is Go's nil) and the store afterwards.\<close>

definition WithTx :: "faults \<Rightarrow> db \<Rightarrow> (tx \<Rightarrow> error + tx) \<Rightarrow> error option \<times> db" where
  "WithTx f d fn =
     (if f 0 \<noteq> None then (Some (Errorf ''begin tx'' (Some EngineFault)), d)
      else case fn \<lparr>tx_db = d, tx_n = 1\<rparr> of
             Inl e \<Rightarrow> (Some e, d)
           | Inr t \<Rightarrow>
               if f (tx_n t) \<noteq> None then (Some (Errorf ''commit tx'' (Some EngineFault)), d)
               else (None, tx_db t))"

section \<open>The session store\<close>

definition endSessionTx ::
  "faults \<Rightarrow> tx \<Rightarrow> CurrentSession \<Rightarrow> Time \<Rightarrow> string \<Rightarrow> error + tx" where
  "endSessionTx f t cur end0 reason =
     (let end = (if Before end0 (cs_StartTime cur) then cs_StartTime cur else end0);
          dur0 = Seconds (Sub end (cs_StartTime cur));
          dur = (if dur0 < 0 then 0 else dur0)
      in case insert_session f t (cs_DeviceID cur) (cs_AppID cur) (cs_AppName cur)
                (cs_StartTime cur) end (int64 dur) reason of
           Inl c \<Rightarrow> Inl (Errorf ''insert session'' (Some c))
         | Inr t1 \<Rightarrow>
             (case delete_current_where_device f t1 (cs_DeviceID cur) of
                Inl c \<Rightarrow> Inl (Errorf ''delete current_session'' (Some c))
              | Inr t2 \<Rightarrow> Inr t2))"

definition new_current_session :: "PollUpdate \<Rightarrow> CurrentSession" where
  "new_current_session p =
     \<lparr>cs_DeviceID = pu_DeviceID p, cs_AppID = pu_AppID p, cs_AppName = pu_AppName p,
      cs_StartTime = pu_Timestamp p, cs_LastSeenTime = pu_Timestamp p,
      cs_State = ''active''\<rparr>"

definition ApplyPoll_tx :: "faults \<Rightarrow> PollUpdate \<Rightarrow> tx \<Rightarrow> error + tx" where
  "ApplyPoll_tx f p t =
     (case select_current_where_device f t (pu_DeviceID p) of
        Inl c \<Rightarrow> Inl (Errorf ''scan current_session'' (Some c))
      | Inr (cur, t1) \<Rightarrow>
          if pu_State p = ''active'' then
            (if pu_AppID p = [] \<or> pu_AppName p = [] then Inr t1
             else case cur of
                 None \<Rightarrow>
                   (case insert_current_session f t1 (new_current_session p) of
                      Inl c \<Rightarrow> Inl (Errorf ''insert current_session'' (Some c))
                    | Inr t2 \<Rightarrow> Inr t2)
               | Some c \<Rightarrow>
                   if cs_AppID c \<noteq> pu_AppID p then
                     (case endSessionTx f t1 c (pu_Timestamp p) ''app_change'' of
                        Inl e \<Rightarrow> Inl e
                      | Inr t2 \<Rightarrow>
                          (case insert_current_session f t2 (new_current_session p) of
                             Inl c \<Rightarrow> Inl (Errorf ''insert new current_session'' (Some c))
                           | Inr t3 \<Rightarrow> Inr t3))
                   else
                     (case update_last_seen_time f t1 (pu_Timestamp p) (pu_DeviceID p) of
                        Inl c \<Rightarrow> Inl (Errorf ''update current_session last_seen'' (Some c))
                      | Inr t2 \<Rightarrow> Inr t2))
          else if pu_State p = ''idle'' \<or> pu_State p = ''offline'' then
            (case cur of
               None \<Rightarrow> Inr t1
             | Some c \<Rightarrow> endSessionTx f t1 c (pu_Timestamp p) (pu_State p))
          else Inr t1)"

definition ApplyPoll :: "faults \<Rightarrow> db \<Rightarrow> PollUpdate \<Rightarrow> error option \<times> db" where
  "ApplyPoll f d p =
     (if pu_DeviceID p = [] then (Some (Errorf ''poll update missing device_id'' None), d)
      else WithTx f d (ApplyPoll_tx f p))"




subsection \<open>CloseStaleCurrentSessions\<close>




subsection \<open>GetUsageBetween\<close>









subsection \<open>A device loop: ApplyPoll called once for each poll, in order\<close>

text \<open>The states after each call of a sequence of calls, each with the faults the
  environment injects into it.\<close>

fun run_polls :: "db \<Rightarrow> (faults \<times> PollUpdate) list \<Rightarrow> db list" where
  "run_polls d [] = []"
| "run_polls d (fp # ps) =
     (let d' = snd (ApplyPoll (fst fp) d (snd fp)) in d' # run_polls d' ps)"

definition open_session :: "db \<Rightarrow> string \<Rightarrow> CurrentSession option" where
  "open_session d dev = find (\<lambda>r. cs_DeviceID r = dev) (current_sessions d)"

definition last_seen :: "string \<Rightarrow> db \<Rightarrow> Time option" where
  "last_seen dev d = map_option cs_LastSeenTime (open_session d dev)"

section \<open>Strings\<close>

text \<open>Go's \<open>strings\<close> functions on byte strings of ASCII text: \<open>ToLower\<close> maps A to Z
  onto a to z, \<open>TrimSpace\<close> removes leading and trailing ASCII white space, \<open>HasSuffix\<close>
  compares the last bytes.\<close>

definition lower_char :: "char \<Rightarrow> char" where
  "lower_char c =
     (let n = (of_char c :: nat) in if 65 \<le> n \<and> n \<le> 90 then char_of (n + 32) else c)"

definition ToLower :: "string \<Rightarrow> string" where
  "ToLower s = map lower_char s"

definition isSpace :: "char \<Rightarrow> bool" where
  "isSpace c \<longleftrightarrow> (of_char c :: nat) \<in> {9, 10, 11, 12, 13, 32}"

definition TrimSpace :: "string \<Rightarrow> string" where
  "TrimSpace s = rev (dropWhile isSpace (rev (dropWhile isSpace s)))"


section \<open>The Roku poller\<close>

record PollResult =
  pr_DeviceID :: string
  pr_AppID :: string
  pr_AppName :: string
  pr_State :: string
  pr_Timestamp :: Time

record RokuPoller =
  rp_deviceID :: string
  rp_baseURL :: string

text \<open>
  What the network did with one request: \<open>http.NewRequestWithContext\<close> failed,
  \<open>client.Do\<close> failed, or a response arrived with a status code and a body that
  \<open>io.ReadAll\<close> could read or not.
\<close>

datatype body_read = ReadFailed | Body string

datatype exchange = NewRequestFailed | DoFailed | Response int body_read

text \<open>
  \<open>xml.Unmarshal\<close> belongs to Go's library. It reads tokens up to the first start
  element and returns \<open>io.EOF\<close> when the input ends before one, so the empty document
  is an error. On any other document the decoder is the parameter \<open>dec\<close>, giving the
  \<open>id\<close> attribute and the character data of the \<open>app\<close> element.
\<close>

definition xml_Unmarshal ::
  "(string \<Rightarrow> cause + string \<times> string) \<Rightarrow> string \<Rightarrow> cause + string \<times> string" where
  "xml_Unmarshal dec body = (if body = [] then Inl EOF else dec body)"

definition isIdleAppName :: "string \<Rightarrow> bool" where
  "isIdleAppName name =
     (let l = ToLower (TrimSpace name)
      in if l = ''roku'' \<or> l = ''home'' \<or> l = ''screensaver'' \<or> l = ''roku home''
         then True else False)"

definition StatusOK :: int where
  "StatusOK = 200"

definition Poll ::
  "(string \<Rightarrow> cause + string \<times> string) \<Rightarrow> RokuPoller \<Rightarrow> Time \<Rightarrow> exchange
     \<Rightarrow> PollResult \<times> error option" where
  "Poll dec p now ex =
     (let res = \<lparr>pr_DeviceID = rp_deviceID p, pr_AppID = [], pr_AppName = [],
                 pr_State = ''offline'', pr_Timestamp = now\<rparr>
      in case ex of
           NewRequestFailed \<Rightarrow> (res, Some (Errorf ''build request'' (Some RequestError)))
         | DoFailed \<Rightarrow> (res, None)
         | Response status rd \<Rightarrow>
             if status \<noteq> StatusOK then (res, None)
             else (case rd of
                 ReadFailed \<Rightarrow>
                   (res, Some (Errorf ''read active-app response'' (Some ReadError)))
               | Body body \<Rightarrow>
                   (case xml_Unmarshal dec body of
                      Inl c \<Rightarrow> (res, Some (Errorf ''unmarshal active-app response'' (Some c)))
                    | Inr a \<Rightarrow>
                        (let appID = TrimSpace (fst a);
                             appName = TrimSpace (snd a);
                             res1 = res\<lparr>pr_AppID := appID, pr_AppName := appName\<rparr>
                         in if appName = [] \<or> isIdleAppName appName
                            then (res1\<lparr>pr_State := ''idle''\<rparr>, None)
                            else (res1\<lparr>pr_State := ''active''\<rparr>, None)))))"

text \<open>The result \<open>res\<close> that \<open>Poll\<close> starts from, and a poller and a decoder for the
  examples; the decoder accepts no document, and the examples never reach it.\<close>

definition offline_result :: "RokuPoller \<Rightarrow> Time \<Rightarrow> PollResult" where
  "offline_result p now =
     \<lparr>pr_DeviceID = rp_deviceID p, pr_AppID = [], pr_AppName = [], pr_State = ''offline'',
      pr_Timestamp = now\<rparr>"

definition tv_poller :: RokuPoller where
  "tv_poller = \<lparr>rp_deviceID = ''tv'', rp_baseURL = ''http://tv:8060''\<rparr>"

definition strict_decoder :: "string \<Rightarrow> cause + string \<times> string" where
  "strict_decoder body = Inl XMLSyntaxError"

section \<open>The categorizer of the Linux agent\<close>











section \<open>The aggregator configuration\<close>













section \<open>The transitions and sums as the specification words them\<close>

text \<open>The closing rule: the end is the later of the poll's timestamp and the session's
  start, and the duration is the whole seconds between start and end, at least 0.\<close>

definition spec_close :: "db \<Rightarrow> CurrentSession \<Rightarrow> Time \<Rightarrow> string \<Rightarrow> db" where
  "spec_close d cur ts reason =
     (let end = max ts (cs_StartTime cur) in
      d\<lparr>sessions := sessions d @
           [\<lparr>se_ID = sqlite_sequence d + 1, se_DeviceID = cs_DeviceID cur,
             se_AppID = cs_AppID cur, se_AppName = cs_AppName cur,
             se_StartTime = cs_StartTime cur, se_EndTime = end,
             se_DurationSecs = max 0 ((end - cs_StartTime cur) div Second),
             se_EndReason = reason\<rparr>],
         current_sessions :=
           filter (\<lambda>r. cs_DeviceID r \<noteq> cs_DeviceID cur) (current_sessions d),
         sqlite_sequence := sqlite_sequence d + 1\<rparr>)"

definition spec_open :: "db \<Rightarrow> PollUpdate \<Rightarrow> db" where
  "spec_open d p =
     d\<lparr>current_sessions := current_sessions d @
          [\<lparr>cs_DeviceID = pu_DeviceID p, cs_AppID = pu_AppID p, cs_AppName = pu_AppName p,
            cs_StartTime = pu_Timestamp p, cs_LastSeenTime = pu_Timestamp p,
            cs_State = ''active''\<rparr>]\<rparr>"

definition spec_touch :: "db \<Rightarrow> PollUpdate \<Rightarrow> db" where
  "spec_touch d p =
     d\<lparr>current_sessions :=
          map (\<lambda>r. if cs_DeviceID r = pu_DeviceID p
                    then r\<lparr>cs_LastSeenTime := pu_Timestamp p\<rparr> else r)
            (current_sessions d)\<rparr>"

text \<open>The transition table of \<open>ApplyPoll\<close>, row by row.\<close>

definition spec_ApplyPoll :: "db \<Rightarrow> PollUpdate \<Rightarrow> db" where
  "spec_ApplyPoll d p =
     (case find (\<lambda>r. cs_DeviceID r = pu_DeviceID p) (current_sessions d) of
        None \<Rightarrow>
          if pu_State p = ''active'' \<and> pu_AppID p \<noteq> [] \<and> pu_AppName p \<noteq> []
          then spec_open d p
          else d
      | Some cur \<Rightarrow>
          if pu_State p = ''active'' then
            (if pu_AppID p = [] \<or> pu_AppName p = [] then d
             else if pu_AppID p = cs_AppID cur then spec_touch d p
             else spec_open (spec_close d cur (pu_Timestamp p) ''app_change'') p)
          else if pu_State p = ''idle'' then spec_close d cur (pu_Timestamp p) ''idle''
          else if pu_State p = ''offline'' then spec_close d cur (pu_Timestamp p) ''offline''
          else d)"


text \<open>The contribution of an interval to a window, in whole seconds.\<close>

definition contribution :: "Time \<Rightarrow> Time \<Rightarrow> Time \<Rightarrow> Time \<Rightarrow> int" where
  "contribution start end sStart sEnd = max 0 (min end sEnd - max start sStart) div Second"












section \<open>Concrete stores and polls\<close>

text \<open>The instant \<open>T0\<close> is 2025-01-01T12:00:00Z; \<open>after_T0 s\<close> is \<open>s\<close> seconds later.\<close>

definition T0 :: Time where
  "T0 = 1735732800 * Second"

definition after_T0 :: "int \<Rightarrow> Time" where
  "after_T0 s = T0 + s * Second"

definition empty_db :: db where
  "empty_db = \<lparr>sessions = [], current_sessions = [], sqlite_sequence = 0\<rparr>"

definition poll :: "string \<Rightarrow> string \<Rightarrow> string \<Rightarrow> Time \<Rightarrow> PollUpdate" where
  "poll state app name ts =
     \<lparr>pu_DeviceID = ''tv'', pu_AppID = app, pu_AppName = name, pu_State = state,
      pu_Timestamp = ts\<rparr>"

definition open_row :: "string \<Rightarrow> string \<Rightarrow> Time \<Rightarrow> Time \<Rightarrow> CurrentSession" where
  "open_row app name start seen =
     \<lparr>cs_DeviceID = ''tv'', cs_AppID = app, cs_AppName = name, cs_StartTime = start,
      cs_LastSeenTime = seen, cs_State = ''active''\<rparr>"

definition closed_row ::
  "int \<Rightarrow> string \<Rightarrow> string \<Rightarrow> Time \<Rightarrow> Time \<Rightarrow> int \<Rightarrow> string \<Rightarrow> Session" where
  "closed_row i app name start end dur reason =
     \<lparr>se_ID = i, se_DeviceID = ''tv'', se_AppID = app, se_AppName = name,
      se_StartTime = start, se_EndTime = end, se_DurationSecs = dur, se_EndReason = reason\<rparr>"

section \<open>Durations in whole seconds\<close>

lemma int64_Seconds: "0 \<le> d \<Longrightarrow> int64 (Seconds d) = d div Second"
  by (simp add: int64_def Seconds_def Second_def floor_divide_of_int_eq[where 'a=rat, of d 1000000000, simplified])

lemma Seconds_neg_iff: "Seconds d < 0 \<longleftrightarrow> d < 0"
  by (simp add: Seconds_def Second_def divide_less_0_iff)

lemma div_Second_nonneg: "0 \<le> d \<Longrightarrow> 0 \<le> d div Second"
  by (simp add: Second_def pos_imp_zdiv_nonneg_iff)

lemma endSessionTx_Inr:
  assumes "endSessionTx f t cur e r = Inr t'"
  shows "tx_db t' = spec_close (tx_db t) cur e r \<and> tx_n t' = tx_n t + 2"
  using assms
  by (auto simp: endSessionTx_def insert_session_def delete_current_where_device_def
      advance_def Let_def Before_def Sub_def Seconds_neg_iff int64_Seconds spec_close_def div_Second_nonneg
      split: if_splits sum.splits)

lemma endSessionTx_ok:
  assumes "f (tx_n t) = None" "f (Suc (tx_n t)) = None"
  shows "\<exists>t'. endSessionTx f t cur e r = Inr t'"
  using assms
  by (auto simp: endSessionTx_def insert_session_def delete_current_where_device_def
      advance_def Let_def split: sum.splits)

lemma find_None_notin: "find (\<lambda>r. cs_DeviceID r = dev) rs = None \<Longrightarrow> dev \<notin> cs_DeviceID ` set rs"
  by (auto simp: find_None_iff)

lemma select_current_Inr:
  "select_current_where_device f t dev = Inr (cur, t1) \<Longrightarrow>
     cur = find (\<lambda>r. cs_DeviceID r = dev) (current_sessions (tx_db t)) \<and>
     tx_db t1 = tx_db t \<and> tx_n t1 = Suc (tx_n t)"
  by (auto simp: select_current_where_device_def advance_def split: if_splits)

lemma insert_current_Inr:
  "insert_current_session f t row = Inr t' \<Longrightarrow>
     tx_db t' = (tx_db t)\<lparr>current_sessions := current_sessions (tx_db t) @ [row]\<rparr> \<and>
     tx_n t' = Suc (tx_n t)"
  by (auto simp: insert_current_session_def advance_def split: if_splits)

lemma update_last_seen_Inr:
  "update_last_seen_time f t ts dev = Inr t' \<Longrightarrow>
     tx_db t' = (tx_db t)\<lparr>current_sessions :=
        map (\<lambda>r. if cs_DeviceID r = dev then r\<lparr>cs_LastSeenTime := ts\<rparr> else r)
          (current_sessions (tx_db t))\<rparr> \<and>
     tx_n t' = Suc (tx_n t)"
  by (auto simp: update_last_seen_time_def advance_def split: if_splits)

lemma ApplyPoll_tx_Inr:
  assumes "ApplyPoll_tx f p t = Inr t'"
  shows "tx_db t' = spec_ApplyPoll (tx_db t) p"
proof -
  from assms obtain cur t1 where sel: "select_current_where_device f t (pu_DeviceID p) = Inr (cur, t1)"
    by (auto simp: ApplyPoll_tx_def split: sum.splits)
  from select_current_Inr[OF sel]
  have cur: "find (\<lambda>r. cs_DeviceID r = pu_DeviceID p) (current_sessions (tx_db t)) = cur"
    and d1: "tx_db t1 = tx_db t" by simp_all
  note body = assms[unfolded ApplyPoll_tx_def sel, simplified]
  show ?thesis
  proof (cases "pu_State p = ''active''")
    case act: True
    show ?thesis
    proof (cases "pu_AppID p = [] \<or> pu_AppName p = []")
      case True
      with body act have "t' = t1" by auto
      with True act d1 show ?thesis
        by (auto simp: spec_ApplyPoll_def split: option.splits)
    next
      case ok: False
      show ?thesis
      proof (cases cur)
        case None
        with body act ok have "insert_current_session f t1 (new_current_session p) = Inr t'"
          by (auto split: sum.splits)
        from insert_current_Inr[OF this] None cur act ok d1 show ?thesis
          by (simp add: spec_ApplyPoll_def spec_open_def new_current_session_def)
      next
        case (Some c)
        show ?thesis
        proof (cases "cs_AppID c = pu_AppID p")
          case True
          with body act ok Some
          have "update_last_seen_time f t1 (pu_Timestamp p) (pu_DeviceID p) = Inr t'"
            by (auto split: sum.splits)
          from update_last_seen_Inr[OF this] Some cur act ok d1 True show ?thesis
            by (simp add: spec_ApplyPoll_def spec_touch_def)
        next
          case False
          with body act ok Some obtain t2 where
            e: "endSessionTx f t1 c (pu_Timestamp p) ''app_change'' = Inr t2" and
            i: "insert_current_session f t2 (new_current_session p) = Inr t'"
            by (auto split: sum.splits)
          from endSessionTx_Inr[OF e] insert_current_Inr[OF i] Some cur act ok d1 False
          show ?thesis
            by (auto simp add: spec_ApplyPoll_def spec_open_def new_current_session_def)
        qed
      qed
    qed
  next
    case nact: False
    show ?thesis
    proof (cases "pu_State p = ''idle'' \<or> pu_State p = ''offline''")
      case True
      show ?thesis
      proof (cases cur)
        case None
        with body nact True have "t' = t1" by auto
        with None cur nact d1 show ?thesis by (simp add: spec_ApplyPoll_def)
      next
        case (Some c)
        with body nact True have "endSessionTx f t1 c (pu_Timestamp p) (pu_State p) = Inr t'"
          by auto
        from endSessionTx_Inr[OF this] Some cur nact True d1 show ?thesis
          by (auto simp add: spec_ApplyPoll_def)
      qed
    next
      case False
      with body nact have "t' = t1" by auto
      with False nact d1 show ?thesis
        by (auto simp: spec_ApplyPoll_def split: option.splits)
    qed
  qed
qed

subsection \<open>ApplyPoll: refinement of the transition table\<close>

lemma find_device_Some:
  "find (\<lambda>r. cs_DeviceID r = dev) rs = Some c \<Longrightarrow> cs_DeviceID c = dev \<and> c \<in> set rs"
  by (auto simp: find_Some_iff)

lemma insert_current_ok:
  assumes "f (tx_n t) = None" "cs_DeviceID row \<notin> cs_DeviceID ` set (current_sessions (tx_db t))"
  shows "\<exists>t'. insert_current_session f t row = Inr t'"
  using assms by (simp add: insert_current_session_def)

lemma ApplyPoll_tx_ok:
  assumes nf: "\<And>n. f n = None"
  shows "\<exists>t'. ApplyPoll_tx f p t = Inr t'"
proof -
  define cur where "cur = find (\<lambda>r. cs_DeviceID r = pu_DeviceID p) (current_sessions (tx_db t))"
  have sel: "select_current_where_device f t (pu_DeviceID p) = Inr (cur, advance t)"
    by (simp add: select_current_where_device_def nf cur_def)
  have new: "cs_DeviceID (new_current_session p) = pu_DeviceID p"
    by (simp add: new_current_session_def)
  have d1: "tx_db (advance t) = tx_db t" by (simp add: advance_def)
  show ?thesis
  proof (cases cur)
    case None
    then have "pu_DeviceID p \<notin> cs_DeviceID ` set (current_sessions (tx_db (advance t)))"
      unfolding cur_def d1 by (rule find_None_notin)
    with insert_current_ok[of f "advance t" "new_current_session p"] nf new
    obtain t' where "insert_current_session f (advance t) (new_current_session p) = Inr t'"
      by auto
    with None show ?thesis
      by (simp add: ApplyPoll_tx_def sel)
  next
    case (Some c)
    then have cdev: "cs_DeviceID c = pu_DeviceID p"
      unfolding cur_def by (auto dest: find_device_Some)
    have ends: "\<exists>t'. endSessionTx f (advance t) c e r = Inr t'" for e r
      by (rule endSessionTx_ok) (simp_all add: nf)
    have upd: "\<exists>t'. update_last_seen_time f (advance t) ts dev = Inr t'" for ts dev
      by (simp add: update_last_seen_time_def nf)
    obtain t2 where e: "endSessionTx f (advance t) c (pu_Timestamp p) ''app_change'' = Inr t2"
      using ends by blast
    from endSessionTx_Inr[OF e]
    have "pu_DeviceID p \<notin> cs_DeviceID ` set (current_sessions (tx_db t2))"
      by (auto simp: spec_close_def Let_def cdev)
    with insert_current_ok[of f t2 "new_current_session p"] nf new
    obtain t3 where i: "insert_current_session f t2 (new_current_session p) = Inr t3"
      by auto
    obtain t4 where u: "update_last_seen_time f (advance t) (pu_Timestamp p) (pu_DeviceID p) = Inr t4"
      using upd by blast
    obtain t5 where e2: "endSessionTx f (advance t) c (pu_Timestamp p) (pu_State p) = Inr t5"
      using ends by blast
    show ?thesis
      by (simp add: ApplyPoll_tx_def sel Some e i u e2)
  qed
qed

lemma WithTx_error: "WithTx f d fn = (Some e, d') \<Longrightarrow> d' = d"
  by (auto simp: WithTx_def split: if_splits sum.splits)

lemma WithTx_commit: "WithTx f d fn = (None, d') \<Longrightarrow> \<exists>t. fn \<lparr>tx_db = d, tx_n = 1\<rparr> = Inr t \<and> d' = tx_db t"
  by (auto simp: WithTx_def split: if_splits sum.splits)

lemma WithTx_no_faults: "fn \<lparr>tx_db = d, tx_n = 1\<rparr> = Inr t \<Longrightarrow> WithTx no_faults d fn = (None, tx_db t)"
  by (simp add: WithTx_def no_faults_def)

lemma ApplyPoll_error: "ApplyPoll f d p = (Some e, d') \<Longrightarrow> d' = d"
  by (auto simp: ApplyPoll_def dest: WithTx_error split: if_splits)

lemma ApplyPoll_commit:
  assumes "ApplyPoll f d p = (None, d')"
  shows "pu_DeviceID p \<noteq> [] \<and> d' = spec_ApplyPoll d p"
proof -
  from assms have ne: "pu_DeviceID p \<noteq> []" and w: "WithTx f d (ApplyPoll_tx f p) = (None, d')"
    by (auto simp: ApplyPoll_def split: if_splits)
  from WithTx_commit[OF w] obtain t where "ApplyPoll_tx f p \<lparr>tx_db = d, tx_n = 1\<rparr> = Inr t" "d' = tx_db t"
    by blast
  with ApplyPoll_tx_Inr[of f p "\<lparr>tx_db = d, tx_n = 1\<rparr>" t] ne show ?thesis by simp
qed

lemma ApplyPoll_no_faults:
  assumes "pu_DeviceID p \<noteq> []"
  shows "ApplyPoll no_faults d p = (None, spec_ApplyPoll d p)"
proof -
  obtain t where t: "ApplyPoll_tx no_faults p \<lparr>tx_db = d, tx_n = 1\<rparr> = Inr t"
    using ApplyPoll_tx_ok[of no_faults p] by (auto simp: no_faults_def)
  from ApplyPoll_tx_Inr[OF t] WithTx_no_faults[of "ApplyPoll_tx no_faults p" d t, OF t] assms show ?thesis
    by (simp add: ApplyPoll_def)
qed

lemma ApplyPoll_snd: "snd (ApplyPoll f d p) = d \<or> snd (ApplyPoll f d p) = spec_ApplyPoll d p"
proof (cases "ApplyPoll f d p")
  case (Pair r d')
  then show ?thesis
    by (cases r) (auto dest: ApplyPoll_commit ApplyPoll_error)
qed


subsection \<open>The transition table on the scenario of an app change\<close>

lemmas scen_defs = poll_def open_row_def closed_row_def empty_db_def after_T0_def T0_def Second_def

lemma scenario_open: "spec_ApplyPoll empty_db (poll ''active'' ''NFLX'' ''Netflix'' T0) =
     \<lparr>sessions = [], current_sessions = [open_row ''NFLX'' ''Netflix'' T0 T0],
             sqlite_sequence = 0\<rparr>"
  by (simp add: spec_ApplyPoll_def spec_open_def scen_defs)




lemma poll_device: "pu_DeviceID (poll st a n ts) \<noteq> []"
  by (simp add: poll_def)


subsection \<open>The closing rule\<close>









subsection \<open>The heartbeat of the same app\<close>

lemma find_touch:
  "find (\<lambda>r. cs_DeviceID r = dev)
     (map (\<lambda>r. if cs_DeviceID r = dev' then r\<lparr>cs_LastSeenTime := ts\<rparr> else r) rs) =
   map_option (\<lambda>r. if cs_DeviceID r = dev' then r\<lparr>cs_LastSeenTime := ts\<rparr> else r)
     (find (\<lambda>r. cs_DeviceID r = dev) rs)"
  by (induction rs) auto




subsection \<open>At most one open session for each device; last-seen times in order\<close>

lemma touch_devices:
  "map cs_DeviceID (map (\<lambda>r. if cs_DeviceID r = dev then r\<lparr>cs_LastSeenTime := ts\<rparr> else r) rs) =
   map cs_DeviceID rs"
  by (induction rs) auto

lemma spec_ApplyPoll_distinct:
  assumes "distinct (map cs_DeviceID (current_sessions d))"
  shows "distinct (map cs_DeviceID (current_sessions (spec_ApplyPoll d p)))"
proof (cases "find (\<lambda>r. cs_DeviceID r = pu_DeviceID p) (current_sessions d)")
  case None
  from find_None_notin[OF None] assms show ?thesis
    by (auto simp: spec_ApplyPoll_def None spec_open_def)
next
  case (Some cur)
  from find_device_Some[OF Some] have cdev: "cs_DeviceID cur = pu_DeviceID p" by simp
  have closed: "distinct (map cs_DeviceID (current_sessions (spec_close d cur ts reason)))"
    for ts reason
    using assms by (simp add: spec_close_def Let_def distinct_map_filter)
  have reopened:
    "distinct (map cs_DeviceID (current_sessions (spec_open (spec_close d cur ts reason) p)))"
    for ts reason
    using assms by (auto simp: spec_open_def spec_close_def Let_def distinct_map_filter cdev)
  have touched: "distinct (map cs_DeviceID (current_sessions (spec_touch d p)))"
    using assms by (simp add: spec_touch_def touch_devices del: map_map)
  show ?thesis
    using assms closed reopened touched by (simp add: spec_ApplyPoll_def Some)
qed

lemma ApplyPoll_distinct:
  assumes "distinct (map cs_DeviceID (current_sessions d))"
  shows "distinct (map cs_DeviceID (current_sessions (snd (ApplyPoll f d p))))"
  using ApplyPoll_snd[of f d p] assms spec_ApplyPoll_distinct[OF assms, of p] by auto

lemma run_polls_distinct:
  assumes "distinct (map cs_DeviceID (current_sessions d))"
  shows "\<forall>s \<in> set (run_polls d ps). distinct (map cs_DeviceID (current_sessions s))"
  using assms
proof (induction ps arbitrary: d)
  case Nil
  then show ?case by simp
next
  case (Cons fp ps)
  from ApplyPoll_distinct[OF Cons.prems]
  have "distinct (map cs_DeviceID (current_sessions (snd (ApplyPoll (fst fp) d (snd fp)))))" .
  with Cons.IH[OF this] show ?case by (simp add: Let_def)
qed

lemma find_filter_out: "find P (filter (\<lambda>r. \<not> P r) rs) = None"
  by (induction rs) auto

lemma find_append_new:
  "find P rs = None \<Longrightarrow> P x \<Longrightarrow> find P (rs @ [x]) = Some x"
  by (induction rs) (auto split: if_splits)

lemma last_seen_spec_step:
  "last_seen (pu_DeviceID p) (spec_ApplyPoll d p) = None \<or>
   last_seen (pu_DeviceID p) (spec_ApplyPoll d p) = last_seen (pu_DeviceID p) d \<or>
   last_seen (pu_DeviceID p) (spec_ApplyPoll d p) = Some (pu_Timestamp p)"
proof (cases "find (\<lambda>r. cs_DeviceID r = pu_DeviceID p) (current_sessions d)")
  case None
  have "last_seen (pu_DeviceID p) (spec_open d p) = Some (pu_Timestamp p)"
    using find_append_new[OF None, of "new_current_session p"]
    by (simp add: last_seen_def open_session_def spec_open_def new_current_session_def)
  then show ?thesis by (simp add: spec_ApplyPoll_def None)
next
  case (Some cur)
  from find_device_Some[OF Some] have cdev: "cs_DeviceID cur = pu_DeviceID p" by simp
  have gone: "find (\<lambda>r. cs_DeviceID r = pu_DeviceID p)
      (current_sessions (spec_close d cur ts reason)) = None" for ts reason
    using find_filter_out[of "\<lambda>r. cs_DeviceID r = pu_DeviceID p" "current_sessions d"]
    by (simp add: spec_close_def Let_def cdev)
  then have closed: "last_seen (pu_DeviceID p) (spec_close d cur ts reason) = None" for ts reason
    by (simp add: last_seen_def open_session_def)
  have reopened: "last_seen (pu_DeviceID p) (spec_open (spec_close d cur ts reason) p) =
      Some (pu_Timestamp p)" for ts reason
    using find_append_new[OF gone, of "new_current_session p" ts reason]
    by (simp add: last_seen_def open_session_def spec_open_def new_current_session_def)
  have touched: "last_seen (pu_DeviceID p) (spec_touch d p) = Some (pu_Timestamp p)"
    by (simp add: last_seen_def open_session_def spec_touch_def find_touch Some cdev)
  show ?thesis
    using closed reopened touched by (simp add: spec_ApplyPoll_def Some)
qed

lemma last_seen_step:
  "last_seen (pu_DeviceID p) (snd (ApplyPoll f d p)) = None \<or>
   last_seen (pu_DeviceID p) (snd (ApplyPoll f d p)) = last_seen (pu_DeviceID p) d \<or>
   last_seen (pu_DeviceID p) (snd (ApplyPoll f d p)) = Some (pu_Timestamp p)"
  using ApplyPoll_snd[of f d p] last_seen_spec_step[of p d] by auto

lemma trace_values:
  assumes "\<forall>fp \<in> set ps. pu_DeviceID (snd fp) = dev"
      and "x \<in> set (List.map_filter (last_seen dev) (run_polls d ps))"
  shows "last_seen dev d = Some x \<or> x \<in> (\<lambda>fp. pu_Timestamp (snd fp)) ` set ps"
  using assms
proof (induction ps arbitrary: d)
  case Nil
  then show ?case by simp
next
  case (Cons fp ps)
  let ?d' = "snd (ApplyPoll (fst fp) d (snd fp))"
  from Cons.prems(1) have dev: "pu_DeviceID (snd fp) = dev"
    and rest: "\<forall>fp \<in> set ps. pu_DeviceID (snd fp) = dev" by simp_all
  from last_seen_step[of "snd fp" "fst fp" d] dev
  have step: "last_seen dev ?d' = None \<or> last_seen dev ?d' = last_seen dev d \<or>
      last_seen dev ?d' = Some (pu_Timestamp (snd fp))" by simp
  from Cons.prems(2)
  have "last_seen dev ?d' = Some x \<or> x \<in> set (List.map_filter (last_seen dev) (run_polls ?d' ps))"
    by (auto simp: Let_def split: option.splits)
  then show ?case
  proof
    assume "last_seen dev ?d' = Some x"
    with step show ?thesis by auto
  next
    assume "x \<in> set (List.map_filter (last_seen dev) (run_polls ?d' ps))"
    from Cons.IH[OF rest this] step show ?thesis by auto
  qed
qed

lemma trace_sorted:
  assumes "\<forall>fp \<in> set ps. pu_DeviceID (snd fp) = dev"
      and "sorted (map (\<lambda>fp. pu_Timestamp (snd fp)) ps)"
      and "\<forall>t. last_seen dev d = Some t \<longrightarrow> (\<forall>fp \<in> set ps. t \<le> pu_Timestamp (snd fp))"
  shows "sorted (List.map_filter (last_seen dev) (d # run_polls d ps))"
  using assms
proof (induction ps arbitrary: d)
  case Nil
  then show ?case by (simp split: option.splits)
next
  case (Cons fp ps)
  let ?d' = "snd (ApplyPoll (fst fp) d (snd fp))"
  from Cons.prems(1) have dev: "pu_DeviceID (snd fp) = dev"
    and rest: "\<forall>fp \<in> set ps. pu_DeviceID (snd fp) = dev" by simp_all
  from Cons.prems(2) have srt: "sorted (map (\<lambda>fp. pu_Timestamp (snd fp)) ps)"
    and first: "\<forall>q \<in> set ps. pu_Timestamp (snd fp) \<le> pu_Timestamp (snd q)" by simp_all
  from last_seen_step[of "snd fp" "fst fp" d] dev
  have step: "last_seen dev ?d' = None \<or> last_seen dev ?d' = last_seen dev d \<or>
      last_seen dev ?d' = Some (pu_Timestamp (snd fp))" by simp
  have bound': "\<forall>t. last_seen dev ?d' = Some t \<longrightarrow> (\<forall>q \<in> set ps. t \<le> pu_Timestamp (snd q))"
    using step Cons.prems(3) first by auto
  from Cons.IH[OF rest srt bound']
  have ih: "sorted (List.map_filter (last_seen dev) (?d' # run_polls ?d' ps))" .
  show ?case
  proof (cases "last_seen dev d")
    case None
    with ih show ?thesis by (simp add: Let_def)
  next
    case (Some t)
    have "t \<le> x" if "x \<in> set (List.map_filter (last_seen dev) (?d' # run_polls ?d' ps))" for x
    proof -
      from that have "last_seen dev ?d' = Some x \<or>
          x \<in> set (List.map_filter (last_seen dev) (run_polls ?d' ps))"
        by (auto split: option.splits)
      then have "last_seen dev ?d' = Some x \<or> x \<in> (\<lambda>fp. pu_Timestamp (snd fp)) ` set ps"
        using trace_values[OF rest] by blast
      then show ?thesis
        using step Some Cons.prems(3) by auto
    qed
    with ih Some show ?thesis by (simp add: Let_def)
  qed
qed


text \<open>
  Claim C3. If the store has at most one \<open>current_sessions\<close> row for each device, it has
  at most one after any call of \<open>ApplyPoll\<close>, and after each call of any sequence of
  calls. For a sequence of calls for one device with non-decreasing timestamps, none
  earlier than the last-seen time of a session open at the start, the last-seen times of
  the device's open session, read at the start and after each call, never decrease.
\<close>

theorem at_most_one_open_and_last_seen_monotone:
  "(distinct (map cs_DeviceID (current_sessions d)) \<longrightarrow>
      distinct (map cs_DeviceID (current_sessions (snd (ApplyPoll f d p)))) \<and>
      (\<forall>s \<in> set (run_polls d ps). distinct (map cs_DeviceID (current_sessions s)))) \<and>
   ((\<forall>fp \<in> set ps. pu_DeviceID (snd fp) = dev) \<and>
    sorted (map (\<lambda>fp. pu_Timestamp (snd fp)) ps) \<and>
    (\<forall>t. last_seen dev d = Some t \<longrightarrow> (\<forall>fp \<in> set ps. t \<le> pu_Timestamp (snd fp))) \<longrightarrow>
      sorted (List.map_filter (last_seen dev) (d # run_polls d ps)))"
  using ApplyPoll_distinct[of d f p] run_polls_distinct[of d ps] trace_sorted[of ps dev d]
  by blast

lemma scenario_heartbeat:
  "spec_ApplyPoll
     \<lparr>sessions = [], current_sessions = [open_row ''NFLX'' ''Netflix'' T0 T0],
      sqlite_sequence = 0\<rparr>
     (poll ''active'' ''NFLX'' ''Netflix'' (after_T0 60)) =
   \<lparr>sessions = [], current_sessions = [open_row ''NFLX'' ''Netflix'' T0 (after_T0 60)],
    sqlite_sequence = 0\<rparr>"
  by (simp add: spec_ApplyPoll_def spec_touch_def scen_defs)

lemma scenario_heartbeat_idle:
  "spec_ApplyPoll
     \<lparr>sessions = [], current_sessions = [open_row ''NFLX'' ''Netflix'' T0 (after_T0 60)],
      sqlite_sequence = 0\<rparr>
     (poll ''idle'' [] [] (after_T0 120)) =
   \<lparr>sessions = [closed_row 1 ''NFLX'' ''Netflix'' T0 (after_T0 120) 120 ''idle''],
    current_sessions = [], sqlite_sequence = 1\<rparr>"
  by (simp add: spec_ApplyPoll_def spec_close_def scen_defs)

lemma scenario_run:
  "run_polls empty_db
     [(no_faults, poll ''active'' ''NFLX'' ''Netflix'' T0),
      (no_faults, poll ''active'' ''NFLX'' ''Netflix'' (after_T0 60)),
      (no_faults, poll ''idle'' [] [] (after_T0 120))] =
   [\<lparr>sessions = [], current_sessions = [open_row ''NFLX'' ''Netflix'' T0 T0],
     sqlite_sequence = 0\<rparr>,
    \<lparr>sessions = [], current_sessions = [open_row ''NFLX'' ''Netflix'' T0 (after_T0 60)],
     sqlite_sequence = 0\<rparr>,
    \<lparr>sessions = [closed_row 1 ''NFLX'' ''Netflix'' T0 (after_T0 120) 120 ''idle''],
     current_sessions = [], sqlite_sequence = 1\<rparr>]"
  by (simp add: ApplyPoll_no_faults poll_device scenario_open scenario_heartbeat
      scenario_heartbeat_idle)

theorem at_most_one_open_and_last_seen_monotone_witness:
  "distinct (map cs_DeviceID (current_sessions empty_db)) \<and>
   map (\<lambda>fp. pu_DeviceID (snd fp))
     [(no_faults, poll ''active'' ''NFLX'' ''Netflix'' T0),
      (no_faults, poll ''active'' ''NFLX'' ''Netflix'' (after_T0 60)),
      (no_faults, poll ''idle'' [] [] (after_T0 120))] = [''tv'', ''tv'', ''tv''] \<and>
   sorted [T0, after_T0 60, after_T0 120] \<and>
   last_seen ''tv'' empty_db = None \<and>
   sorted (List.map_filter (last_seen ''tv'')
     (empty_db # run_polls empty_db
        [(no_faults, poll ''active'' ''NFLX'' ''Netflix'' T0),
         (no_faults, poll ''active'' ''NFLX'' ''Netflix'' (after_T0 60)),
         (no_faults, poll ''idle'' [] [] (after_T0 120))])) \<and>
   list_all (\<lambda>s. distinct (map cs_DeviceID (current_sessions s)))
     (run_polls empty_db
        [(no_faults, poll ''active'' ''NFLX'' ''Netflix'' T0),
         (no_faults, poll ''active'' ''NFLX'' ''Netflix'' (after_T0 60)),
         (no_faults, poll ''idle'' [] [] (after_T0 120))])"
proof -
  let ?ps = "[(no_faults, poll ''active'' ''NFLX'' ''Netflix'' T0),
              (no_faults, poll ''active'' ''NFLX'' ''Netflix'' (after_T0 60)),
              (no_faults, poll ''idle'' [] [] (after_T0 120))]"
  have inv: "distinct (map cs_DeviceID (current_sessions empty_db))"
    by (simp add: empty_db_def)
  have devs: "map (\<lambda>fp. pu_DeviceID (snd fp)) ?ps = [''tv'', ''tv'', ''tv'']"
    by (simp add: poll_def)
  have dev: "\<forall>fp \<in> set ?ps. pu_DeviceID (snd fp) = ''tv''"
    by (simp add: poll_def)
  have srt: "sorted [T0, after_T0 60, after_T0 120]"
    by (simp add: after_T0_def Second_def)
  then have srt': "sorted (map (\<lambda>fp. pu_Timestamp (snd fp)) ?ps)"
    by (simp add: poll_def)
  have none: "last_seen ''tv'' empty_db = None"
    by (simp add: last_seen_def open_session_def empty_db_def)
  then have bound: "\<forall>t. last_seen ''tv'' empty_db = Some t \<longrightarrow>
      (\<forall>fp \<in> set ?ps. t \<le> pu_Timestamp (snd fp))" by simp
  from at_most_one_open_and_last_seen_monotone
    [of empty_db no_faults "poll ''active'' ''NFLX'' ''Netflix'' T0" ?ps "''tv''"]
    inv dev srt' bound
  have mono: "sorted (List.map_filter (last_seen ''tv'') (empty_db # run_polls empty_db ?ps))"
    and "\<forall>s \<in> set (run_polls empty_db ?ps). distinct (map cs_DeviceID (current_sessions s))"
    by blast+
  then have one: "list_all (\<lambda>s. distinct (map cs_DeviceID (current_sessions s)))
      (run_polls empty_db ?ps)"
    by (simp only: list_all_iff)
  from inv devs srt none mono one show ?thesis by (intro conjI)
qed

subsection \<open>Startup reconciliation\<close>













subsection \<open>Usage between two instants\<close>





lemma contribution_nonneg: "0 \<le> contribution start end sStart sEnd"
  unfolding contribution_def by (rule div_Second_nonneg) simp







































subsection \<open>Round trip: usage over a window that contains everything\<close>




















subsection \<open>The poller's fault mapping\<close>

lemma Poll_DoFailed: "Poll dec p now DoFailed = (offline_result p now, None)"
  by (simp add: Poll_def offline_result_def)

lemma Poll_not_OK:
  "status \<noteq> StatusOK \<Longrightarrow> Poll dec p now (Response status rd) = (offline_result p now, None)"
  by (simp add: Poll_def offline_result_def)

lemma Poll_empty_body:
  "Poll dec p now (Response StatusOK (Body [])) =
     (offline_result p now, Some (Errorf ''unmarshal active-app response'' (Some EOF)))"
  by (simp add: Poll_def offline_result_def xml_Unmarshal_def)

lemma Poll_error_cases:
  assumes "Poll dec p now ex = (r, Some e)"
  shows "r = offline_result p now \<and>
         (ex = NewRequestFailed \<and> e = Errorf ''build request'' (Some RequestError) \<or>
          ex = Response StatusOK ReadFailed \<and>
            e = Errorf ''read active-app response'' (Some ReadError) \<or>
          (\<exists>body c. ex = Response StatusOK (Body body) \<and> xml_Unmarshal dec body = Inl c \<and>
             e = Errorf ''unmarshal active-app response'' (Some c)))"
proof (cases ex)
  case NewRequestFailed
  with assms show ?thesis by (auto simp: Poll_def offline_result_def)
next
  case DoFailed
  with assms show ?thesis by (simp add: Poll_DoFailed)
next
  case (Response status rd)
  show ?thesis
  proof (cases "status = StatusOK")
    case False
    with assms Response show ?thesis by (simp add: Poll_not_OK)
  next
    case True
    show ?thesis
    proof (cases rd)
      case ReadFailed
      with assms Response True show ?thesis by (auto simp: Poll_def offline_result_def)
    next
      case (Body body)
      show ?thesis
      proof (cases "xml_Unmarshal dec body")
        case (Inl c)
        with assms Response True Body show ?thesis by (auto simp: Poll_def offline_result_def)
      next
        case (Inr a)
        with assms Response True Body show ?thesis
          by (simp add: Poll_def Let_def split: if_splits)
      qed
    qed
  qed
qed


text \<open>
  Claim C6, as the code has it. \<open>Poll\<close> maps a failed connection and every status other
  than 200 to the offline result (state \<open>offline\<close>, empty \<open>AppID\<close> and \<open>AppName\<close>) with a
  nil error. An empty body on a 200 response is not such a fault: \<open>xml.Unmarshal\<close> fails
  on it and \<open>Poll\<close> returns that error with the offline result. An error is returned only
  when the request cannot be built, when the body of a 200 response cannot be read, or
  when the body of a 200 response does not parse; the result is then the offline result.
\<close>

theorem Poll_fault_mapping:
  "Poll dec p now DoFailed = (offline_result p now, None) \<and>
   (status \<noteq> StatusOK \<longrightarrow> Poll dec p now (Response status rd) = (offline_result p now, None)) \<and>
   Poll dec p now (Response StatusOK (Body [])) =
     (offline_result p now, Some (Errorf ''unmarshal active-app response'' (Some EOF))) \<and>
   (\<forall>r e. Poll dec p now ex = (r, Some e) \<longrightarrow>
      r = offline_result p now \<and>
      (ex = NewRequestFailed \<and> e = Errorf ''build request'' (Some RequestError) \<or>
       ex = Response StatusOK ReadFailed \<and>
         e = Errorf ''read active-app response'' (Some ReadError) \<or>
       (\<exists>body c. ex = Response StatusOK (Body body) \<and> xml_Unmarshal dec body = Inl c \<and>
          e = Errorf ''unmarshal active-app response'' (Some c))))"
  using Poll_DoFailed[of dec p now] Poll_not_OK[of status dec p now rd]
    Poll_empty_body[of dec p now] Poll_error_cases[of dec p now ex]
  by blast

theorem Poll_fault_mapping_witness:
  "(503 :: int) \<noteq> StatusOK \<and>
   Poll strict_decoder tv_poller T0 (Response 503 (Body ''Service Unavailable'')) =
     (\<lparr>pr_DeviceID = ''tv'', pr_AppID = [], pr_AppName = [], pr_State = ''offline'',
       pr_Timestamp = T0\<rparr>, None) \<and>
   Poll strict_decoder tv_poller T0 DoFailed =
     (\<lparr>pr_DeviceID = ''tv'', pr_AppID = [], pr_AppName = [], pr_State = ''offline'',
       pr_Timestamp = T0\<rparr>, None)"
proof -
  have ne: "(503 :: int) \<noteq> StatusOK" by (simp add: StatusOK_def)
  have off: "offline_result tv_poller T0 =
      \<lparr>pr_DeviceID = ''tv'', pr_AppID = [], pr_AppName = [], pr_State = ''offline'',
        pr_Timestamp = T0\<rparr>"
    by (simp add: offline_result_def tv_poller_def)
  from Poll_fault_mapping[of strict_decoder tv_poller T0 503 "Body ''Service Unavailable''" DoFailed]
    ne off
  show ?thesis by simp
qed

theorem Poll_empty_body_counterexample:
  "Poll strict_decoder tv_poller T0 (Response 200 (Body [])) =
     (\<lparr>pr_DeviceID = ''tv'', pr_AppID = [], pr_AppName = [], pr_State = ''offline'',
       pr_Timestamp = T0\<rparr>,
      Some (Errorf ''unmarshal active-app response'' (Some EOF))) \<and>
   Poll strict_decoder tv_poller T0 NewRequestFailed =
     (\<lparr>pr_DeviceID = ''tv'', pr_AppID = [], pr_AppName = [], pr_State = ''offline'',
       pr_Timestamp = T0\<rparr>,
      Some (Errorf ''build request'' (Some RequestError)))"
  by (simp add: Poll_def xml_Unmarshal_def StatusOK_def tv_poller_def)

subsection \<open>Categorize\<close>





















subsection \<open>The day start hour of the aggregator configuration\<close>






end
